theory Spec2Isabelle
  imports Complex_Main "HOL-Library.Sublist"
begin

section \<open>The drawer stack of \<^verbatim>\<open>src/providers/root/drawer-stack-provider.tsx\<close>\<close>

subsection \<open>Data model\<close>

text \<open>
  React components and callbacks are opaque to the stack logic: a component is
  represented by its name, a callback by a number, and calling a callback is
  recorded in the state (see \<open>calls\<close> below).
\<close>

type_synonym component = string
type_synonym callback = nat

datatype title = TitleString string | TitleFC component

datatype position = Left | Right | Top | Bottom | Center

text \<open>\<^verbatim>\<open>interface ModalProps\<close>; an optional field is an \<open>option\<close>.\<close>

record ModalProps =
  title :: title
  content :: component
  CustomModalComponent :: "component option"
  clickOutsideToDismiss :: "bool option"
  modalClassName :: "string option"
  modalContainerClassName :: "string option"
  position :: "position option"
  onClose :: "callback option"

text \<open>\<^verbatim>\<open>ModalProps & { id?: string }\<close>, the argument of \<open>present\<close>.\<close>

record PresentProps = ModalProps +
  id_opt :: "string option"

text \<open>\<^verbatim>\<open>ModalProps & { id: string }\<close>, an entry of the stack.\<close>

record ModalItem = ModalProps +
  id' :: string

text \<open>
  The module state: the value of \<^verbatim>\<open>modalStackAtom\<close> in \<^verbatim>\<open>jotaiStore\<close>, the side
  table \<^verbatim>\<open>modalIdToPropsMap\<close>, and two logs of what the code does to its
  environment: every call of a descriptor's \<^verbatim>\<open>onClose\<close> (with the ids that were
  in the stack at the moment of the call) and every \<^verbatim>\<open>animateController.start\<close>.
\<close>

record anim =
  scale :: "rat option"
  opacity :: "rat option"
  duration :: "rat option"

record world =
  modalStack :: "ModalItem list"
  modalIdToPropsMap :: "string \<rightharpoonup> ModalItem"
  calls :: "(callback \<times> string list) list"
  animations :: "anim list"

text \<open>
  One caller of \<^verbatim>\<open>useDrawerStack\<close>: the value of \<^verbatim>\<open>useId()\<close> and the counter
  \<^verbatim>\<open>currentCount.current\<close>. The counter is a JavaScript number that starts at 0 and
  is only ever incremented by one; it is taken as a natural number (a JavaScript
  number is exact on this range up to \<open>2 ^ 53\<close>).
\<close>

record scope =
  scope_id :: string
  currentCount :: nat

subsection \<open>Synthesized ids\<close>

definition digit :: "nat \<Rightarrow> char" where
  "digit d = char_of (48 + d)"

text \<open>The decimal numeral of a counter value, as a template literal prints it.\<close>

fun dec :: "nat \<Rightarrow> string" where
  "dec n = (if n < 10 then [digit n] else dec (n div 10) @ [digit (n mod 10)])"

declare dec.simps [simp del]

text \<open>\<^verbatim>\<open>`${id}-${currentCount.current++}`\<close>, for the counter value \<open>c\<close>.\<close>

definition modalId_of :: "string \<Rightarrow> nat \<Rightarrow> string" where
  "modalId_of sid c = sid @ ''-'' @ dec c"

subsection \<open>Array primitives\<close>

text \<open>
  \<^verbatim>\<open>Array.prototype.slice(start, end)\<close>: a negative index counts from the end, and
  both indices are clamped to the array.
\<close>

definition js_slice :: "int \<Rightarrow> int \<Rightarrow> 'a list \<Rightarrow> 'a list" where
  "js_slice start fin xs =
     (let len = int (length xs);
          k = (if start < 0 then max (len + start) 0 else min start len);
          final = (if fin < 0 then max (len + fin) 0 else min fin len)
      in take (nat (final - k)) (drop (nat k) xs))"

text \<open>\<^verbatim>\<open>jotaiStore.set(modalStackAtom, updater)\<close>.\<close>

definition set_modalStack :: "(ModalItem list \<Rightarrow> ModalItem list) \<Rightarrow> world \<Rightarrow> world" where
  "set_modalStack updater w = w\<lparr>modalStack := updater (modalStack w)\<rparr>"

subsection \<open>The hook API\<close>

text \<open>\<^verbatim>\<open>{ ...props, id: props.id ?? modalId }\<close>.\<close>

definition modalProps_of :: "PresentProps \<Rightarrow> string \<Rightarrow> ModalItem" where
  "modalProps_of props modalId =
     \<lparr>title = title props, content = content props,
      CustomModalComponent = CustomModalComponent props,
      clickOutsideToDismiss = clickOutsideToDismiss props,
      modalClassName = modalClassName props,
      modalContainerClassName = modalContainerClassName props,
      position = position props, onClose = onClose props,
      id' = (case id_opt props of Some i \<Rightarrow> i | None \<Rightarrow> modalId)\<rparr>"

text \<open>
  \<^verbatim>\<open>present\<close> returns the closure, the caller's scope with the counter incremented,
  and the new state. The closure filters on \<^verbatim>\<open>modalId\<close>, the synthesized id.
\<close>

definition present :: "scope \<Rightarrow> PresentProps \<Rightarrow> world \<Rightarrow> (world \<Rightarrow> world) \<times> scope \<times> world" where
  "present sc props w =
     (let modalId = modalId_of (scope_id sc) (currentCount sc);
          sc' = sc\<lparr>currentCount := currentCount sc + 1\<rparr>;
          modalProps = modalProps_of props modalId;
          w' = set_modalStack (\<lambda>p. p @ [modalProps])
                 (w\<lparr>modalIdToPropsMap := (modalIdToPropsMap w)(id' modalProps \<mapsto> modalProps)\<rparr>)
      in (set_modalStack (filter (\<lambda>item. id' item \<noteq> modalId)), sc', w'))"

text \<open>The object \<^verbatim>\<open>actions\<close>.\<close>

definition dismiss :: "string \<Rightarrow> world \<Rightarrow> world" where
  "dismiss i = set_modalStack (filter (\<lambda>item. id' item \<noteq> i))"

definition dismissTop :: "world \<Rightarrow> world" where
  "dismissTop = set_modalStack (js_slice 0 (- 1))"

definition dismissAll :: "world \<Rightarrow> world" where
  "dismissAll w = w\<lparr>modalStack := []\<rparr>"

text \<open>
  \<^verbatim>\<open>useDismissAllWhenRouterChange\<close>: an effect with the dependency list
  \<^verbatim>\<open>[pathname]\<close> runs after the first render (no previous dependencies) and after
  every render whose \<^verbatim>\<open>pathname\<close> differs from the one of the render before.
\<close>

definition useDismissAllWhenRouterChange :: "string option \<Rightarrow> string \<Rightarrow> world \<Rightarrow> world" where
  "useDismissAllWhenRouterChange prev pathname w =
     (if prev = Some pathname then w else dismissAll w)"

subsection \<open>The presentation element \<^verbatim>\<open>Modal\<close>\<close>

text \<open>\<^verbatim>\<open>close\<close>: \<^verbatim>\<open>setStack((p) => p.filter((modal) => modal.id !== item.id))\<close>.\<close>

definition Modal_close :: "ModalItem \<Rightarrow> world \<Rightarrow> world" where
  "Modal_close item = set_modalStack (filter (\<lambda>modal. id' modal \<noteq> id' item))"

text \<open>Calling a descriptor's callback: logged with the ids live at that moment.\<close>

definition call_callback :: "callback \<Rightarrow> world \<Rightarrow> world" where
  "call_callback cb w = w\<lparr>calls := calls w @ [(cb, map id' (modalStack w))]\<rparr>"

text \<open>\<^verbatim>\<open>onClose(open)\<close>, the \<^verbatim>\<open>onOpenChange\<close> handler of the dialog and of the sheet.\<close>

definition Modal_onClose :: "ModalItem \<Rightarrow> bool \<Rightarrow> world \<Rightarrow> world" where
  "Modal_onClose item open' w =
     (if \<not> open' then
        (let w1 = Modal_close item w
         in case onClose item of Some cb \<Rightarrow> call_callback cb w1 | None \<Rightarrow> w1)
      else w)"

text \<open>
  Modelled from the spec: \<^verbatim>\<open>stopPropagation\<close> is imported from \<^verbatim>\<open>~/lib/dom\<close>, a
  module outside this file; the spec calls it an "explicit propagation stop", so it
  marks the event as no longer propagating.
\<close>

record SyntheticEvent =
  propagationStopped :: bool

definition stopPropagation :: "SyntheticEvent \<Rightarrow> SyntheticEvent" where
  "stopPropagation e = e\<lparr>propagationStopped := True\<rparr>"

text \<open>\<^verbatim>\<open>dismiss(e)\<close>: \<^verbatim>\<open>stopPropagation(e); close()\<close>.\<close>

definition Modal_dismiss :: "ModalItem \<Rightarrow> SyntheticEvent \<Rightarrow> world \<Rightarrow> SyntheticEvent \<times> world" where
  "Modal_dismiss item e w = (stopPropagation e, Modal_close item w)"

text \<open>
  \<^verbatim>\<open>noticeModal\<close> in two steps: the first \<^verbatim>\<open>start\<close>, and the continuation given to
  \<^verbatim>\<open>then\<close>, which runs when the first animation has finished and reads
  \<^verbatim>\<open>isUnmounted.current\<close> at that moment.
\<close>

definition noticeModal_start :: "world \<Rightarrow> world" where
  "noticeModal_start w =
     w\<lparr>animations := animations w @ [\<lparr>scale = Some (105 / 100), opacity = None, duration = Some (6 / 100)\<rparr>]\<rparr>"

definition noticeModal_then :: "bool \<Rightarrow> world \<Rightarrow> world" where
  "noticeModal_then isUnmounted w =
     (if isUnmounted then w
      else w\<lparr>animations := animations w @ [\<lparr>scale = Some 1, opacity = None, duration = None\<rparr>]\<rparr>)"

text \<open>What \<^verbatim>\<open>Modal\<close> returns. A click handler is named, not a function.\<close>

datatype click_handler = Handler_dismiss | Handler_noticeModal

datatype vnode = Text string | Element component

datatype rendered =
  PresentSheet (sheet_title: vnode) (sheet_zIndex: nat) (sheet_content: vnode)
| CustomDialog (custom_overlay_zIndex: nat) (custom_onClick: "click_handler option")
    (custom_wrapper: component) (custom_content: vnode)
| DefaultDialog (default_overlay_zIndex: nat) (default_onClick: "click_handler option")
    (style_zIndex: nat) (dialog_title: vnode) (dialog_content: vnode)

definition render_title :: "title \<Rightarrow> vnode" where
  "render_title t = (case t of TitleString s \<Rightarrow> Text s | TitleFC c \<Rightarrow> Element c)"

text \<open>A missing \<^verbatim>\<open>clickOutsideToDismiss\<close> is \<^verbatim>\<open>undefined\<close>, which is falsy.\<close>

definition truthy :: "bool option \<Rightarrow> bool" where
  "truthy b = (b = Some True)"

text \<open>
  \<^verbatim>\<open>Modal({ item, index })\<close>. The result of \<^verbatim>\<open>useIsMobile()\<close> and the length of
  \<^verbatim>\<open>sheetStackAtom\<close> (\<^verbatim>\<open>drawerLength\<close>) come from outside the module and are
  parameters.
\<close>

definition Modal :: "ModalItem \<Rightarrow> nat \<Rightarrow> bool \<Rightarrow> nat \<Rightarrow> rendered" where
  "Modal item index isMobile drawerLength =
     (if isMobile then
        PresentSheet (render_title (title item)) (1000 + drawerLength) (Element (content item))
      else case CustomModalComponent item of
        Some custom \<Rightarrow>
          CustomDialog 20
            (if truthy (clickOutsideToDismiss item) then Some Handler_dismiss else None)
            custom (Element (content item))
      | None \<Rightarrow>
          DefaultDialog 20
            (if truthy (clickOutsideToDismiss item) then Some Handler_dismiss
             else Some Handler_noticeModal)
            (99 + index) (render_title (title item)) (Element (content item)))"

text \<open>The \<^verbatim>\<open>onClick\<close> of the backdrop, the container around the dialog.\<close>

definition backdrop_onClick :: "rendered \<Rightarrow> click_handler option" where
  "backdrop_onClick r =
     (case r of PresentSheet _ _ _ \<Rightarrow> None
      | CustomDialog _ h _ _ \<Rightarrow> h
      | DefaultDialog _ h _ _ _ \<Rightarrow> h)"

text \<open>The z-index given to the element's own style, where it has one.\<close>

definition element_zIndex :: "rendered \<Rightarrow> nat option" where
  "element_zIndex r =
     (case r of PresentSheet _ z _ \<Rightarrow> Some z
      | CustomDialog _ _ _ _ \<Rightarrow> None
      | DefaultDialog _ _ z _ _ \<Rightarrow> Some z)"

text \<open>
  A click on the backdrop of a rendered element runs its handler; the
  continuation of \<^verbatim>\<open>noticeModal\<close> runs with the value \<open>isUnmounted\<close> that the flag has
  when the first animation has finished.
\<close>

definition backdrop_click ::
  "ModalItem \<Rightarrow> nat \<Rightarrow> bool \<Rightarrow> nat \<Rightarrow> bool \<Rightarrow> SyntheticEvent \<Rightarrow> world \<Rightarrow> world" where
  "backdrop_click item index isMobile drawerLength isUnmounted e w =
     (case backdrop_onClick (Modal item index isMobile drawerLength) of
        None \<Rightarrow> w
      | Some Handler_dismiss \<Rightarrow> snd (Modal_dismiss item e w)
      | Some Handler_noticeModal \<Rightarrow> noticeModal_then isUnmounted (noticeModal_start w))"

text \<open>
  \<^verbatim>\<open>DrawerStack\<close>: nothing until \<^verbatim>\<open>useIsClient()\<close> holds, then one \<^verbatim>\<open>Modal\<close> per
  entry, keyed by its id, with the entry's index.
\<close>

definition DrawerStack :: "bool \<Rightarrow> bool \<Rightarrow> nat \<Rightarrow> world \<Rightarrow> (string \<times> rendered) list option" where
  "DrawerStack isClient isMobile drawerLength w =
     (if \<not> isClient then None
      else Some (map (\<lambda>(index, item). (id' item, Modal item index isMobile drawerLength))
                  (enumerate 0 (modalStack w))))"

subsection \<open>Sequences of calls\<close>

text \<open>
  The callers of \<^verbatim>\<open>useDrawerStack\<close> are told apart by their \<^verbatim>\<open>useId()\<close>, so the
  counters of all callers are one table from scope id to counter.
\<close>

datatype action =
  Present string PresentProps
| Dismiss string
| DismissTop
| DismissAll

record system =
  sys_world :: world
  counters :: "string \<Rightarrow> nat"

definition step :: "system \<Rightarrow> action \<Rightarrow> system" where
  "step s a =
     (case a of
        Present sid props \<Rightarrow>
          (case present \<lparr>scope_id = sid, currentCount = counters s sid\<rparr> props (sys_world s) of
             (_, sc', w') \<Rightarrow> \<lparr>sys_world = w', counters = (counters s)(sid := currentCount sc')\<rparr>)
      | Dismiss i \<Rightarrow> s\<lparr>sys_world := dismiss i (sys_world s)\<rparr>
      | DismissTop \<Rightarrow> s\<lparr>sys_world := dismissTop (sys_world s)\<rparr>
      | DismissAll \<Rightarrow> s\<lparr>sys_world := dismissAll (sys_world s)\<rparr>)"

definition run :: "system \<Rightarrow> action list \<Rightarrow> system" where
  "run = foldl step"

definition empty_world :: world where
  "empty_world = \<lparr>modalStack = [], modalIdToPropsMap = Map.empty, calls = [], animations = []\<rparr>"

definition init :: system where
  "init = \<lparr>sys_world = empty_world, counters = (\<lambda>_. 0)\<rparr>"

definition no_explicit_id :: "action \<Rightarrow> bool" where
  "no_explicit_id a = (case a of Present _ props \<Rightarrow> id_opt props = None | _ \<Rightarrow> True)"

text \<open>
  The invariant of the synthesized ids: the ids of the stack are pairwise distinct
  and each is the id some caller has made from a counter value it has passed.
\<close>

definition ids_issued :: "system \<Rightarrow> bool" where
  "ids_issued s \<longleftrightarrow>
     distinct (map id' (modalStack (sys_world s))) \<and>
     (\<forall>item\<in>set (modalStack (sys_world s)).
        \<exists>sid k. id' item = modalId_of sid k \<and> k < counters s sid)"

text \<open>Several \<^verbatim>\<open>present\<close> calls of one caller, in order.\<close>

fun present_all :: "scope \<Rightarrow> PresentProps list \<Rightarrow> world \<Rightarrow> scope \<times> world" where
  "present_all sc [] w = (sc, w)"
| "present_all sc (props # rest) w =
     (case present sc props w of (_, sc', w') \<Rightarrow> present_all sc' rest w')"

subsection \<open>The arrays behind the atom\<close>

text \<open>
  The value of \<^verbatim>\<open>modalStackAtom\<close> is a reference to an array, and an earlier value
  may still be held by a reader. The memory maps references to arrays;
  \<open>atom_ref\<close> is the array the atom holds and \<open>next_ref\<close> the next unused
  reference. \<^verbatim>\<open>filter\<close>, \<^verbatim>\<open>concat\<close>, \<^verbatim>\<open>slice\<close> and the literal \<^verbatim>\<open>[]\<close> each build
  a new array and write to no other one. The entries are values: no statement of
  the module assigns to a field of an entry.
\<close>

record mem =
  arrays :: "nat \<Rightarrow> ModalItem list"
  next_ref :: nat
  atom_ref :: nat

definition new_array :: "ModalItem list \<Rightarrow> mem \<Rightarrow> nat \<times> mem" where
  "new_array xs m =
     (next_ref m, m\<lparr>arrays := (arrays m)(next_ref m := xs), next_ref := next_ref m + 1\<rparr>)"

definition array_filter :: "(ModalItem \<Rightarrow> bool) \<Rightarrow> nat \<Rightarrow> mem \<Rightarrow> nat \<times> mem" where
  "array_filter P r m = new_array (filter P (arrays m r)) m"

definition array_concat :: "ModalItem \<Rightarrow> nat \<Rightarrow> mem \<Rightarrow> nat \<times> mem" where
  "array_concat x r m = new_array (arrays m r @ [x]) m"

definition array_slice :: "int \<Rightarrow> int \<Rightarrow> nat \<Rightarrow> mem \<Rightarrow> nat \<times> mem" where
  "array_slice start fin r m = new_array (js_slice start fin (arrays m r)) m"

text \<open>\<^verbatim>\<open>jotaiStore.set(modalStackAtom, updater)\<close> on references.\<close>

definition set_atom :: "(nat \<Rightarrow> mem \<Rightarrow> nat \<times> mem) \<Rightarrow> mem \<Rightarrow> mem" where
  "set_atom updater m = (case updater (atom_ref m) m of (r, m') \<Rightarrow> m'\<lparr>atom_ref := r\<rparr>)"

definition present_mem :: "scope \<Rightarrow> PresentProps \<Rightarrow> mem \<Rightarrow> mem" where
  "present_mem sc props =
     set_atom (array_concat (modalProps_of props (modalId_of (scope_id sc) (currentCount sc))))"

definition dismiss_mem :: "string \<Rightarrow> mem \<Rightarrow> mem" where
  "dismiss_mem i = set_atom (array_filter (\<lambda>item. id' item \<noteq> i))"

definition dismissTop_mem :: "mem \<Rightarrow> mem" where
  "dismissTop_mem = set_atom (array_slice 0 (- 1))"

definition dismissAll_mem :: "mem \<Rightarrow> mem" where
  "dismissAll_mem = set_atom (\<lambda>_. new_array [])"

text \<open>The array the atom holds.\<close>

definition atom_value :: "mem \<Rightarrow> ModalItem list" where
  "atom_value m = arrays m (atom_ref m)"

subsection \<open>Sample descriptors\<close>

text \<open>A plain descriptor with the given title, and the stack entry made of it.\<close>

definition descriptor :: "string \<Rightarrow> PresentProps" where
  "descriptor t =
     \<lparr>title = TitleString t, content = ''Content'', CustomModalComponent = None,
      clickOutsideToDismiss = None, modalClassName = None, modalContainerClassName = None,
      position = None, onClose = None, id_opt = None\<rparr>"

definition entry :: "string \<Rightarrow> string \<Rightarrow> ModalItem" where
  "entry t i = modalProps_of (descriptor t) i"

definition world_of :: "ModalItem list \<Rightarrow> world" where
  "world_of p = empty_world\<lparr>modalStack := p\<rparr>"

text \<open>A memory whose only array, held by the atom, is the given list.\<close>

definition mem_of :: "ModalItem list \<Rightarrow> mem" where
  "mem_of p = \<lparr>arrays = (\<lambda>_. [])(0 := p), next_ref = 1, atom_ref = 0\<rparr>"

section \<open>Properties\<close>

lemma js_slice_butlast: "js_slice 0 (- 1) xs = butlast xs"
proof (cases xs rule: rev_cases)
  case Nil
  then show ?thesis by (simp add: js_slice_def)
next
  case (snoc ys y)
  then show ?thesis by (simp add: js_slice_def Let_def)
qed

subsection \<open>State updates\<close>

lemmas world_defs = world_of_def empty_world_def entry_def descriptor_def modalProps_of_def

lemma stack_set_modalStack [simp]: "modalStack (set_modalStack f w) = f (modalStack w)"
  by (simp add: set_modalStack_def)

lemma calls_set_modalStack [simp]: "calls (set_modalStack f w) = calls w"
  by (simp add: set_modalStack_def)

lemma animations_set_modalStack [simp]: "animations (set_modalStack f w) = animations w"
  by (simp add: set_modalStack_def)

lemma set_modalStack_same: "f (modalStack w) = modalStack w \<Longrightarrow> set_modalStack f w = w"
  by (simp add: set_modalStack_def)

lemma filter_absent_id: "i \<notin> set (map id' p) \<Longrightarrow> filter (\<lambda>item. id' item \<noteq> i) p = p"
  by (induction p) auto

lemma subseq_butlast: "subseq (butlast xs) xs"
  by (cases xs rule: rev_cases) auto

lemma id_modalProps_of_None [simp]: "id_opt props = None \<Longrightarrow> id' (modalProps_of props i) = i"
  by (simp add: modalProps_of_def)

lemma id_modalProps_of_Some [simp]: "id_opt props = Some j \<Longrightarrow> id' (modalProps_of props i) = j"
  by (simp add: modalProps_of_def)

lemma present_stack:
  "modalStack (snd (snd (present sc props w))) =
     modalStack w @ [modalProps_of props (modalId_of (scope_id sc) (currentCount sc))]"
  by (simp add: present_def Let_def)

lemma present_closure:
  "fst (present sc props w) =
     set_modalStack (filter (\<lambda>item. id' item \<noteq> modalId_of (scope_id sc) (currentCount sc)))"
  by (simp add: present_def Let_def)

lemma present_scope:
  "fst (snd (present sc props w)) = sc\<lparr>currentCount := currentCount sc + 1\<rparr>"
  by (simp add: present_def Let_def)

subsection \<open>Synthesized ids are told apart\<close>

text \<open>
  A decimal numeral has no \<open>-\<close>, so the last \<open>-\<close> of a synthesized id separates the
  scope id from the counter, and the numeral determines the counter.
\<close>

lemma of_char_digit: "d < 10 \<Longrightarrow> (of_char (digit d) :: nat) = 48 + d"
  by (simp add: digit_def)

lemma digit_neq_minus: "d < 10 \<Longrightarrow> digit d \<noteq> CHR ''-''"
proof
  assume d: "d < 10" and "digit d = CHR ''-''"
  then have "(of_char (digit d) :: nat) = of_char CHR ''-''" by simp
  with d show False by (simp add: of_char_digit)
qed

lemma digit_inj: "a < 10 \<Longrightarrow> b < 10 \<Longrightarrow> digit a = digit b \<Longrightarrow> a = b"
proof -
  assume a: "a < 10" and b: "b < 10" and "digit a = digit b"
  then have "(of_char (digit a) :: nat) = of_char (digit b)" by simp
  with a b show "a = b" by (simp add: of_char_digit)
qed

lemma dec_nonempty: "dec n \<noteq> []"
  by (subst dec.simps) simp

lemma minus_notin_dec: "CHR ''-'' \<notin> set (dec n)"
proof (induction n rule: dec.induct)
  case (1 n)
  show ?case
  proof (cases "n < 10")
    case True
    then show ?thesis using digit_neq_minus [of n] by (subst dec.simps) auto
  next
    case False
    then have "n mod 10 < 10" by simp
    with False 1 show ?thesis using digit_neq_minus [of "n mod 10"]
      by (subst dec.simps) auto
  qed
qed

lemma dec_inj: "dec n = dec m \<Longrightarrow> n = m"
proof (induction n arbitrary: m rule: dec.induct)
  case (1 n)
  show ?case
  proof (cases "n < 10")
    case n: True
    show ?thesis
    proof (cases "m < 10")
      case True
      with n 1(2) show ?thesis by (simp add: dec.simps [of n] dec.simps [of m] digit_inj)
    next
      case False
      with n 1(2) show ?thesis
        using dec_nonempty [of "m div 10"] by (simp add: dec.simps [of n] dec.simps [of m])
    qed
  next
    case n: False
    show ?thesis
    proof (cases "m < 10")
      case True
      with n 1(2) show ?thesis
        using dec_nonempty [of "n div 10"] by (simp add: dec.simps [of n] dec.simps [of m])
    next
      case False
      with n 1(2) have e: "dec (n div 10) = dec (m div 10)" and d: "digit (n mod 10) = digit (m mod 10)"
        by (simp_all add: dec.simps [of n] dec.simps [of m])
      from 1(1) [OF n e] have q: "n div 10 = m div 10" .
      from d have r: "n mod 10 = m mod 10" by (intro digit_inj) simp_all
      from q r show ?thesis by (metis div_mult_mod_eq)
    qed
  qed
qed

lemma split_at_separator:
  assumes "c \<notin> set d1" "c \<notin> set d2" "s1 @ c # d1 = s2 @ c # d2"
  shows "s1 = s2 \<and> d1 = d2"
  using assms
  by (auto simp: append_eq_append_conv2 Cons_eq_append_conv append_eq_Cons_conv)

lemma modalId_of_inj: "modalId_of s1 n = modalId_of s2 m \<Longrightarrow> s1 = s2 \<and> n = m"
  using split_at_separator [of "CHR ''-''" "dec n" "dec m" s1 s2] minus_notin_dec dec_inj
  by (auto simp: modalId_of_def)

lemma inj_modalId_of: "inj (modalId_of sid)"
  by (rule injI) (simp add: modalId_of_inj)

lemma modalId_of_0: "modalId_of '':r0:'' 0 = '':r0:-0''"
  by code_simp

lemma modalId_of_1: "modalId_of '':r0:'' (Suc 0) = '':r0:-1''"
  by code_simp

subsection \<open>\<^verbatim>\<open>dismissTop\<close>\<close>

text \<open>
  Claim C6. On a stack of \<open>n \<ge> 1\<close> entries \<^verbatim>\<open>dismissTop()\<close> leaves \<open>n - 1\<close> entries,
  the original stack without its last entry; on the empty stack it changes
  nothing.
\<close>

theorem dismissTop_removes_last:
  "(modalStack w \<noteq> [] \<longrightarrow>
      Suc (length (modalStack (dismissTop w))) = length (modalStack w) \<and>
      modalStack w = modalStack (dismissTop w) @ [last (modalStack w)]) \<and>
   (modalStack w = [] \<longrightarrow> dismissTop w = w)"
  by (simp add: dismissTop_def js_slice_butlast set_modalStack_same)

theorem dismissTop_removes_last_witness:
  "modalStack (world_of [entry ''A'' ''a'', entry ''B'' ''b'']) \<noteq> [] \<and>
   modalStack (dismissTop (world_of [entry ''A'' ''a'', entry ''B'' ''b''])) = [entry ''A'' ''a''] \<and>
   modalStack (world_of []) = [] \<and> dismissTop (world_of []) = world_of []"
  using dismissTop_removes_last [of "world_of [entry ''A'' ''a'', entry ''B'' ''b'']"]
    dismissTop_removes_last [of "world_of []"]
  by (simp add: world_of_def empty_world_def)

subsection \<open>\<^verbatim>\<open>dismissAll\<close> and the route change\<close>

text \<open>
  Claim C7. \<^verbatim>\<open>dismissAll()\<close> leaves the empty stack whatever the stack was, and a
  render with a path other than the one of the render before runs it, so the
  stack is empty after a route change.
\<close>

theorem dismissAll_and_route_change:
  "modalStack (dismissAll w) = [] \<and>
   (prev \<noteq> Some pathname \<longrightarrow> modalStack (useDismissAllWhenRouterChange prev pathname w) = [])"
  by (simp add: dismissAll_def useDismissAllWhenRouterChange_def)

theorem dismissAll_and_route_change_witness:
  "Some ''/posts'' \<noteq> Some ''/notes'' \<and>
   modalStack (useDismissAllWhenRouterChange (Some ''/posts'') ''/notes''
     (world_of [entry ''A'' ''a'', entry ''B'' ''b''])) = []"
  using dismissAll_and_route_change
    [of "world_of [entry ''A'' ''a'', entry ''B'' ''b'']" "Some ''/posts''" "''/notes''"]
  by simp

subsection \<open>\<^verbatim>\<open>dismiss\<close>\<close>

lemma filter_distinct_id:
  assumes "distinct (map id' p)" "p = xs @ x # ys"
  shows "filter (\<lambda>item. id' item \<noteq> id' x) p = xs @ ys"
proof -
  from assms have "\<forall>y\<in>set xs \<union> set ys. id' y \<noteq> id' x"
    by (force simp: image_iff)
  then have "filter (\<lambda>item. id' item \<noteq> id' x) xs = xs"
    and "filter (\<lambda>item. id' item \<noteq> id' x) ys = ys"
    by (simp_all add: filter_id_conv)
  with assms(2) show ?thesis by simp
qed

text \<open>
  Claim C4, as stated, fails on a stack that holds an id twice: the filter removes
  every entry with the id.
\<close>

theorem dismiss_duplicate_ids_counterexample:
  "map id' (modalStack (world_of [entry ''A'' ''a'', entry ''B'' ''a''])) = [''a'', ''a''] \<and>
   modalStack (dismiss ''a'' (world_of [entry ''A'' ''a'', entry ''B'' ''a''])) = []"
  by (simp add: world_defs dismiss_def)

text \<open>
  Claim C4, amended. On a stack whose ids are pairwise distinct, \<^verbatim>\<open>dismiss(id)\<close>
  removes the one entry with that id and keeps the others in their order; when no
  entry has the id it changes nothing; and a second \<^verbatim>\<open>dismiss(id)\<close> changes nothing.
\<close>

theorem dismiss_removes_the_entry:
  assumes "distinct (map id' (modalStack w))"
  shows "(i \<in> set (map id' (modalStack w)) \<longrightarrow>
           (\<exists>xs x ys. modalStack w = xs @ x # ys \<and> id' x = i \<and>
              modalStack (dismiss i w) = xs @ ys)) \<and>
         (i \<notin> set (map id' (modalStack w)) \<longrightarrow> dismiss i w = w) \<and>
         dismiss i (dismiss i w) = dismiss i w"
proof (intro conjI impI)
  assume "i \<in> set (map id' (modalStack w))"
  then obtain x where "x \<in> set (modalStack w)" "id' x = i" by auto
  then obtain xs ys where "modalStack w = xs @ x # ys" by (auto dest: split_list)
  with assms \<open>id' x = i\<close> filter_distinct_id [of "modalStack w" xs x ys]
  show "\<exists>xs x ys. modalStack w = xs @ x # ys \<and> id' x = i \<and> modalStack (dismiss i w) = xs @ ys"
    unfolding dismiss_def by auto
next
  assume "i \<notin> set (map id' (modalStack w))"
  then have "filter (\<lambda>item. id' item \<noteq> i) (modalStack w) = modalStack w"
    by (auto simp: filter_id_conv)
  then show "dismiss i w = w" by (simp add: dismiss_def set_modalStack_same)
next
  show "dismiss i (dismiss i w) = dismiss i w"
    by (simp add: dismiss_def set_modalStack_def)
qed

theorem dismiss_removes_the_entry_witness:
  "distinct (map id' (modalStack (world_of [entry ''A'' ''a'', entry ''B'' ''b'', entry ''C'' ''c'']))) \<and>
   ''b'' \<in> set (map id' (modalStack (world_of [entry ''A'' ''a'', entry ''B'' ''b'', entry ''C'' ''c'']))) \<and>
   ''z'' \<notin> set (map id' (modalStack (world_of [entry ''A'' ''a'', entry ''B'' ''b'', entry ''C'' ''c'']))) \<and>
   modalStack (dismiss ''b'' (world_of [entry ''A'' ''a'', entry ''B'' ''b'', entry ''C'' ''c'']))
     = [entry ''A'' ''a'', entry ''C'' ''c'']"
  using dismiss_removes_the_entry
      [of "world_of [entry ''A'' ''a'', entry ''B'' ''b'', entry ''C'' ''c'']" "''b''"]
    dismiss_removes_the_entry
      [of "world_of [entry ''A'' ''a'', entry ''B'' ''b'', entry ''C'' ''c'']" "''z''"]
  by (simp add: world_defs dismiss_def)

subsection \<open>\<^verbatim>\<open>present\<close> and its closure\<close>

text \<open>
  With a synthesized id that is not yet on the stack, the closure takes the stack
  back to what it was before \<^verbatim>\<open>present\<close>; and whatever the id, calling the closure
  twice is calling it once.
\<close>

lemma present_closure_synthesized:
  assumes "id_opt props = None"
    and "modalId_of (scope_id sc) (currentCount sc) \<notin> set (map id' (modalStack w))"
  shows "modalStack (fst (present sc props w) (snd (snd (present sc props w)))) = modalStack w"
proof -
  from assms(2)
  have "filter (\<lambda>item. id' item \<noteq> modalId_of (scope_id sc) (currentCount sc)) (modalStack w)
      = modalStack w"
    by (rule filter_absent_id)
  with assms(1) show ?thesis by (simp add: present_closure present_stack)
qed

lemma present_closure_idempotent:
  "fst (present sc props w) (fst (present sc props w) v) = fst (present sc props w) v"
  by (simp add: present_closure set_modalStack_def)

text \<open>
  Claim C1 says that the closure returned by \<^verbatim>\<open>present\<close> removes the descriptor
  also when the caller supplied its id, and that a second call changes nothing.
  The entry is stored under \<^verbatim>\<open>props.id ?? modalId\<close>, but the closure filters on
  \<^verbatim>\<open>modalId\<close>: presented with the id \<open>login\<close> on the empty stack, the descriptor
  is still on the stack after the closure has run.
\<close>

theorem present_closure_explicit_id_keeps_descriptor:
  "(case present \<lparr>scope_id = '':r0:'', currentCount = 0\<rparr>
           ((descriptor ''A'')\<lparr>id_opt := Some ''login''\<rparr>) empty_world of
      (closure, sc', w') \<Rightarrow>
        (map id' (modalStack w'), map id' (modalStack (closure w')))) =
   ([''login''], [''login''])"
  by (simp add: present_def Let_def descriptor_def empty_world_def modalId_of_def modalProps_of_def)

subsection \<open>\<^verbatim>\<open>onClose\<close>\<close>

lemma calls_dismiss: "calls (dismiss i w) = calls w"
  by (simp add: dismiss_def)

lemma calls_dismissTop: "calls (dismissTop w) = calls w"
  by (simp add: dismissTop_def)

lemma calls_dismissAll: "calls (dismissAll w) = calls w"
  by (simp add: dismissAll_def)

text \<open>
  The handler \<^verbatim>\<open>dismiss\<close> of the backdrop stops the propagation of the click and
  removes the entry; unlike \<^verbatim>\<open>onClose(false)\<close> it does not call the descriptor's
  callback.
\<close>

lemma Modal_dismiss_calls_nothing:
  "propagationStopped (fst (Modal_dismiss item e w)) \<and>
   modalStack (snd (Modal_dismiss item e w)) =
     filter (\<lambda>modal. id' modal \<noteq> id' item) (modalStack w) \<and>
   calls (snd (Modal_dismiss item e w)) = calls w"
  by (simp add: Modal_dismiss_def Modal_close_def stopPropagation_def)

text \<open>
  Claim C2, as stated, fails for the explicit \<^verbatim>\<open>dismiss(id)\<close>: the descriptor is
  removed and its \<^verbatim>\<open>onClose\<close> is not called.
\<close>

theorem explicit_dismiss_onClose_counterexample:
  "onClose ((entry ''A'' ''a'')\<lparr>onClose := Some 7\<rparr>) = Some 7 \<and>
   modalStack (dismiss ''a'' (world_of [(entry ''A'' ''a'')\<lparr>onClose := Some 7\<rparr>])) = [] \<and>
   calls (dismiss ''a'' (world_of [(entry ''A'' ''a'')\<lparr>onClose := Some 7\<rparr>])) = []"
  by (simp add: world_defs dismiss_def)

text \<open>
  Claim C2, amended. For a descriptor with an \<^verbatim>\<open>onClose\<close> callback, when the dialog
  or the sheet reports that it closes (\<^verbatim>\<open>onOpenChange(false)\<close>), the descriptor is
  removed from the stack and then \<^verbatim>\<open>onClose\<close> is called exactly once, on a stack
  that no longer holds the descriptor; \<^verbatim>\<open>onOpenChange(true)\<close> does nothing. The
  operations \<^verbatim>\<open>dismiss\<close>, \<^verbatim>\<open>dismissTop\<close>, \<^verbatim>\<open>dismissAll\<close> and the closure returned by
  \<^verbatim>\<open>present\<close> call no \<^verbatim>\<open>onClose\<close>.
\<close>

theorem Modal_onClose_calls_once:
  assumes "onClose item = Some cb"
  shows "modalStack (Modal_onClose item False w) =
           filter (\<lambda>modal. id' modal \<noteq> id' item) (modalStack w) \<and>
         calls (Modal_onClose item False w) =
           calls w @ [(cb, map id' (modalStack (Modal_onClose item False w)))] \<and>
         id' item \<notin> set (map id' (modalStack (Modal_onClose item False w))) \<and>
         Modal_onClose item True w = w \<and>
         calls (dismiss i w) = calls w \<and> calls (dismissTop w) = calls w \<and>
         calls (dismissAll w) = calls w \<and> calls (fst (present sc props v) w) = calls w"
  using assms
  by (auto simp: Modal_onClose_def Modal_close_def call_callback_def Let_def calls_dismiss
      calls_dismissTop calls_dismissAll present_closure)

theorem Modal_onClose_calls_once_witness:
  "onClose ((entry ''A'' ''a'')\<lparr>onClose := Some 7\<rparr>) = Some 7 \<and>
   modalStack (Modal_onClose ((entry ''A'' ''a'')\<lparr>onClose := Some 7\<rparr>) False
      (world_of [(entry ''A'' ''a'')\<lparr>onClose := Some 7\<rparr>, entry ''B'' ''b''])) = [entry ''B'' ''b''] \<and>
   calls (Modal_onClose ((entry ''A'' ''a'')\<lparr>onClose := Some 7\<rparr>) False
      (world_of [(entry ''A'' ''a'')\<lparr>onClose := Some 7\<rparr>, entry ''B'' ''b''])) = [(7, [''b''])]"
  using Modal_onClose_calls_once [of "(entry ''A'' ''a'')\<lparr>onClose := Some 7\<rparr>" 7
      "world_of [(entry ''A'' ''a'')\<lparr>onClose := Some 7\<rparr>, entry ''B'' ''b'']"]
  by (simp add: world_defs)

subsection \<open>Uniqueness of the ids on the stack\<close>

lemma ids_issued_init: "ids_issued init"
  by (simp add: ids_issued_def init_def empty_world_def)

lemma step_Present:
  "sys_world (step s (Present sid props)) =
     snd (snd (present \<lparr>scope_id = sid, currentCount = counters s sid\<rparr> props (sys_world s)))"
  "counters (step s (Present sid props)) = (counters s)(sid := counters s sid + 1)"
  by (simp_all add: step_def present_def Let_def)

lemma ids_issued_present:
  assumes inv: "ids_issued s" and none: "id_opt props = None"
  shows "ids_issued (step s (Present sid props))"
proof -
  let ?c = "counters s sid"
  let ?p = "modalStack (sys_world s)"
  have stack: "modalStack (sys_world (step s (Present sid props))) =
      ?p @ [modalProps_of props (modalId_of sid ?c)]"
    by (simp add: step_Present present_def Let_def)
  have cnt: "counters (step s (Present sid props)) = (counters s)(sid := ?c + 1)"
    by (rule step_Present)
  have fresh: "modalId_of sid ?c \<notin> set (map id' ?p)"
  proof
    assume "modalId_of sid ?c \<in> set (map id' ?p)"
    then obtain item where "item \<in> set ?p" "id' item = modalId_of sid ?c" by auto
    with inv obtain sid' k where eq: "modalId_of sid ?c = modalId_of sid' k"
      and less: "k < counters s sid'"
      unfolding ids_issued_def by metis
    from modalId_of_inj [OF eq] have "sid = sid'" and "?c = k" by blast+
    with less show False by simp
  qed
  have d: "distinct (map id' (?p @ [modalProps_of props (modalId_of sid ?c)]))"
    using inv fresh none by (simp add: ids_issued_def)
  have issued: "\<exists>sid' k. id' item = modalId_of sid' k \<and> k < ((counters s)(sid := ?c + 1)) sid'"
    if "item \<in> set (?p @ [modalProps_of props (modalId_of sid ?c)])" for item
  proof (cases "item \<in> set ?p")
    case True
    with inv obtain sid' k where k: "id' item = modalId_of sid' k" "k < counters s sid'"
      unfolding ids_issued_def by metis
    then have "k < ((counters s)(sid := ?c + 1)) sid'" by auto
    with k(1) show ?thesis by blast
  next
    case False
    with that have "item = modalProps_of props (modalId_of sid ?c)" by simp
    with none have "id' item = modalId_of sid ?c" by simp
    moreover have "?c < ((counters s)(sid := ?c + 1)) sid" by simp
    ultimately show ?thesis by blast
  qed
  show ?thesis
    unfolding ids_issued_def stack cnt using d issued by blast
qed

lemma ids_issued_removal:
  assumes inv: "ids_issued s"
    and sub: "set (f (modalStack (sys_world s))) \<subseteq> set (modalStack (sys_world s))"
    and dist: "distinct (map id' (f (modalStack (sys_world s))))"
  shows "ids_issued (s\<lparr>sys_world := set_modalStack f (sys_world s)\<rparr>)"
  using assms unfolding ids_issued_def by (auto simp: set_modalStack_def)

lemma ids_issued_step:
  assumes "ids_issued s" and "no_explicit_id a"
  shows "ids_issued (step s a)"
proof (cases a)
  case (Present sid props)
  with assms show ?thesis by (simp add: ids_issued_present no_explicit_id_def)
next
  case (Dismiss i)
  have "ids_issued (s\<lparr>sys_world := set_modalStack (filter (\<lambda>item. id' item \<noteq> i)) (sys_world s)\<rparr>)"
    using assms(1) by (intro ids_issued_removal) (auto simp: ids_issued_def distinct_map_filter)
  with Dismiss show ?thesis by (simp add: step_def dismiss_def)
next
  case DismissTop
  have "ids_issued (s\<lparr>sys_world := set_modalStack butlast (sys_world s)\<rparr>)"
    using assms(1)
    by (intro ids_issued_removal)
      (auto simp: ids_issued_def map_butlast distinct_butlast dest: in_set_butlastD)
  with DismissTop show ?thesis by (simp add: step_def dismissTop_def js_slice_butlast [abs_def])
next
  case DismissAll
  with assms(1) show ?thesis by (simp add: step_def dismissAll_def ids_issued_def)
qed

lemma ids_issued_run:
  "ids_issued s \<Longrightarrow> \<forall>a\<in>set acts. no_explicit_id a \<Longrightarrow> ids_issued (run s acts)"
proof (induction acts arbitrary: s)
  case Nil
  then show ?case by (simp add: run_def)
next
  case (Cons a acts)
  from Cons.prems have "ids_issued (step s a)" by (simp add: ids_issued_step)
  with Cons.IH [of "step s a"] Cons.prems(2) show ?case by (simp add: run_def)
qed

text \<open>
  Claim C3, as stated, fails: \<^verbatim>\<open>present\<close> stores a supplied id without looking at the
  stack, so two calls with the same explicit id leave that id twice.
\<close>

theorem explicit_ids_collide_counterexample:
  "map id' (modalStack (sys_world (run init
      [Present '':r0:'' ((descriptor ''A'')\<lparr>id_opt := Some ''login''\<rparr>),
       Present '':r1:'' ((descriptor ''B'')\<lparr>id_opt := Some ''login''\<rparr>)])))
   = [''login'', ''login'']"
  by (simp add: run_def step_def present_def Let_def init_def empty_world_def descriptor_def
      modalProps_of_def)

text \<open>
  Claim C3, amended. In every stack reached from the empty one by \<^verbatim>\<open>present\<close> calls
  that supply no id and by \<^verbatim>\<open>dismiss\<close>, \<^verbatim>\<open>dismissTop\<close> and \<^verbatim>\<open>dismissAll\<close> calls, the ids
  of the entries are pairwise distinct.
\<close>

theorem synthesized_ids_stay_distinct:
  assumes "\<forall>a\<in>set acts. no_explicit_id a"
  shows "distinct (map id' (modalStack (sys_world (run init acts))))"
  using ids_issued_run [OF ids_issued_init assms] by (simp add: ids_issued_def)

theorem synthesized_ids_stay_distinct_witness:
  "list_all no_explicit_id
      [Present '':r0:'' (descriptor ''A''), Present '':r1:'' (descriptor ''B''), DismissTop,
       Present '':r0:'' (descriptor ''C''), Dismiss '':r1:-0''] \<and>
   distinct (map id' (modalStack (sys_world (run init
      [Present '':r0:'' (descriptor ''A''), Present '':r1:'' (descriptor ''B''), DismissTop,
       Present '':r0:'' (descriptor ''C''), Dismiss '':r1:-0'']))))"
  using synthesized_ids_stay_distinct [of
      "[Present '':r0:'' (descriptor ''A''), Present '':r1:'' (descriptor ''B''), DismissTop,
       Present '':r0:'' (descriptor ''C''), Dismiss '':r1:-0'']"]
  by (simp add: no_explicit_id_def descriptor_def)

subsection \<open>Several \<^verbatim>\<open>present\<close> calls of one caller\<close>

lemma present_all_stack:
  "modalStack (snd (present_all sc ds w)) =
     modalStack w @ map (\<lambda>(k, props). modalProps_of props (modalId_of (scope_id sc) k))
                      (enumerate (currentCount sc) ds)"
proof (induction ds arbitrary: sc w)
  case Nil
  show ?case by simp
next
  case (Cons props rest)
  show ?case
    by (simp add: present_def Let_def Cons.IH)
qed

lemma generated_ids:
  assumes "\<forall>props\<in>set ds. id_opt props = None"
  shows "map id' (map (\<lambda>(k, props). modalProps_of props (modalId_of sid k)) (enumerate c ds))
           = map (modalId_of sid) [c..<c + length ds]"
  using assms
proof (induction ds arbitrary: c)
  case Nil
  show ?case by simp
next
  case (Cons props rest)
  have upt: "[c..<c + length (props # rest)] = c # [Suc c..<Suc c + length rest]"
    by (simp add: upt_rec)
  from Cons.prems have "id_opt props = None" and "\<forall>props\<in>set rest. id_opt props = None"
    by simp_all
  with Cons.IH [of "Suc c"] show ?case
    unfolding upt by simp
qed

lemma id_opt_descriptor [simp]: "id_opt (descriptor t) = None"
  by (simp add: descriptor_def)

lemma modalProps_of_fields [simp]:
  "title (modalProps_of props i) = title props"
  "content (modalProps_of props i) = content props"
  "CustomModalComponent (modalProps_of props i) = CustomModalComponent props"
  "clickOutsideToDismiss (modalProps_of props i) = clickOutsideToDismiss props"
  "modalClassName (modalProps_of props i) = modalClassName props"
  "modalContainerClassName (modalProps_of props i) = modalContainerClassName props"
  "position (modalProps_of props i) = position props"
  "onClose (modalProps_of props i) = onClose props"
  by (simp_all add: modalProps_of_def)

lemma map_field_presented:
  assumes "\<And>props i. f (modalProps_of props i) = h props"
  shows "map f (map (\<lambda>(k, props). modalProps_of props (g k)) (enumerate c ds)) = map h ds"
proof (induction ds arbitrary: c)
  case Nil
  show ?case by simp
next
  case (Cons props rest)
  from Cons.IH [of "Suc c"] assms show ?case by simp
qed

text \<open>
  Claim C5. When one caller presents descriptors without an id, one after the
  other, the stack grows by one entry per descriptor, in the order of the calls,
  and each entry carries the title, the content and every option of its
  descriptor (presenting A then B gives the stack [A, B]); the ids given to them
  are the caller's scope id, a \<open>-\<close> and the successive counter values, so they are
  pairwise distinct and all start with the same scope prefix.
\<close>

theorem present_same_scope_distinct_ordered:
  assumes "\<forall>props\<in>set ds. id_opt props = None"
  shows "\<exists>new. modalStack (snd (present_all sc ds w)) = modalStack w @ new \<and>
            new = map (\<lambda>(k, props). modalProps_of props (modalId_of (scope_id sc) k))
                      (enumerate (currentCount sc) ds) \<and>
            length new = length ds \<and>
            map title new = map title ds \<and>
            map content new = map content ds \<and>
            map CustomModalComponent new = map CustomModalComponent ds \<and>
            map clickOutsideToDismiss new = map clickOutsideToDismiss ds \<and>
            map modalClassName new = map modalClassName ds \<and>
            map modalContainerClassName new = map modalContainerClassName ds \<and>
            map position new = map position ds \<and>
            map onClose new = map onClose ds \<and>
            map id' new =
              map (modalId_of (scope_id sc)) [currentCount sc..<currentCount sc + length ds] \<and>
            distinct (map id' new) \<and>
            (\<forall>item\<in>set new. prefix (scope_id sc @ ''-'') (id' item))"
proof -
  define new where "new = map (\<lambda>(k, props). modalProps_of props (modalId_of (scope_id sc) k))
                      (enumerate (currentCount sc) ds)"
  have stack: "modalStack (snd (present_all sc ds w)) = modalStack w @ new"
    unfolding new_def by (rule present_all_stack)
  have len: "length new = length ds"
    by (simp add: new_def)
  have fields: "map title new = map title ds" "map content new = map content ds"
    "map CustomModalComponent new = map CustomModalComponent ds"
    "map clickOutsideToDismiss new = map clickOutsideToDismiss ds"
    "map modalClassName new = map modalClassName ds"
    "map modalContainerClassName new = map modalContainerClassName ds"
    "map position new = map position ds" "map onClose new = map onClose ds"
    unfolding new_def by (rule map_field_presented, simp)+
  have ids: "map id' new =
      map (modalId_of (scope_id sc)) [currentCount sc..<currentCount sc + length ds]"
    unfolding new_def using assms by (rule generated_ids)
  have dist: "distinct (map id' new)"
    unfolding ids by (simp add: distinct_map inj_modalId_of [THEN inj_on_subset])
  have pre: "\<forall>item\<in>set new. prefix (scope_id sc @ ''-'') (id' item)"
  proof
    fix item assume "item \<in> set new"
    then have "id' item \<in> set (map id' new)" by simp
    then obtain k where "id' item = modalId_of (scope_id sc) k" unfolding ids by auto
    then show "prefix (scope_id sc @ ''-'') (id' item)" by (simp add: modalId_of_def)
  qed
  from stack len fields ids dist pre show ?thesis
    unfolding new_def by blast
qed

theorem present_same_scope_distinct_ordered_witness:
  "list_all (\<lambda>props. id_opt props = None)
     [\<lparr>title = TitleString ''A'', content = ''BodyA'', CustomModalComponent = None,
       clickOutsideToDismiss = Some True, modalClassName = None,
       modalContainerClassName = None, position = Some Right, onClose = Some 3,
       id_opt = None\<rparr>,
      \<lparr>title = TitleString ''B'', content = ''BodyB'', CustomModalComponent = Some ''Chrome'',
       clickOutsideToDismiss = None, modalClassName = Some ''wide'',
       modalContainerClassName = None, position = None, onClose = None,
       id_opt = None\<rparr>] \<and>
   modalStack (snd (present_all \<lparr>scope_id = '':r0:'', currentCount = 0\<rparr>
     [\<lparr>title = TitleString ''A'', content = ''BodyA'', CustomModalComponent = None,
       clickOutsideToDismiss = Some True, modalClassName = None,
       modalContainerClassName = None, position = Some Right, onClose = Some 3,
       id_opt = None\<rparr>,
      \<lparr>title = TitleString ''B'', content = ''BodyB'', CustomModalComponent = Some ''Chrome'',
       clickOutsideToDismiss = None, modalClassName = Some ''wide'',
       modalContainerClassName = None, position = None, onClose = None,
       id_opt = None\<rparr>]
     \<lparr>modalStack = [], modalIdToPropsMap = Map.empty, calls = [], animations = []\<rparr>))
   = [\<lparr>title = TitleString ''A'', content = ''BodyA'', CustomModalComponent = None,
       clickOutsideToDismiss = Some True, modalClassName = None,
       modalContainerClassName = None, position = Some Right, onClose = Some 3,
       id' = '':r0:-0''\<rparr>,
      \<lparr>title = TitleString ''B'', content = ''BodyB'', CustomModalComponent = Some ''Chrome'',
       clickOutsideToDismiss = None, modalClassName = Some ''wide'',
       modalContainerClassName = None, position = None, onClose = None,
       id' = '':r0:-1''\<rparr>]"
  using present_same_scope_distinct_ordered
    [of "[\<lparr>title = TitleString ''A'', content = ''BodyA'', CustomModalComponent = None,
       clickOutsideToDismiss = Some True, modalClassName = None,
       modalContainerClassName = None, position = Some Right, onClose = Some 3,
       id_opt = None\<rparr>,
      \<lparr>title = TitleString ''B'', content = ''BodyB'', CustomModalComponent = Some ''Chrome'',
       clickOutsideToDismiss = None, modalClassName = Some ''wide'',
       modalContainerClassName = None, position = None, onClose = None,
       id_opt = None\<rparr>]"
     "\<lparr>scope_id = '':r0:'', currentCount = 0\<rparr>"
     "\<lparr>modalStack = [], modalIdToPropsMap = Map.empty, calls = [], animations = []\<rparr>"]
  by (simp add: modalProps_of_def modalId_of_0 modalId_of_1)

subsection \<open>The operations build new arrays\<close>

lemma present_mem_eq:
  "present_mem sc props m =
     m\<lparr>arrays := (arrays m)(next_ref m :=
          atom_value m @ [modalProps_of props (modalId_of (scope_id sc) (currentCount sc))]),
       next_ref := next_ref m + 1, atom_ref := next_ref m\<rparr>"
  by (simp add: present_mem_def set_atom_def array_concat_def new_array_def atom_value_def)

lemma dismiss_mem_eq:
  "dismiss_mem i m =
     m\<lparr>arrays := (arrays m)(next_ref m := filter (\<lambda>item. id' item \<noteq> i) (atom_value m)),
       next_ref := next_ref m + 1, atom_ref := next_ref m\<rparr>"
  by (simp add: dismiss_mem_def set_atom_def array_filter_def new_array_def atom_value_def)

lemma dismissTop_mem_eq:
  "dismissTop_mem m =
     m\<lparr>arrays := (arrays m)(next_ref m := butlast (atom_value m)),
       next_ref := next_ref m + 1, atom_ref := next_ref m\<rparr>"
  by (simp add: dismissTop_mem_def set_atom_def array_slice_def new_array_def atom_value_def
      js_slice_butlast)

lemma dismissAll_mem_eq:
  "dismissAll_mem m =
     m\<lparr>arrays := (arrays m)(next_ref m := []), next_ref := next_ref m + 1, atom_ref := next_ref m\<rparr>"
  by (simp add: dismissAll_mem_def set_atom_def new_array_def)

lemmas mem_eqs = present_mem_eq dismiss_mem_eq dismissTop_mem_eq dismissAll_mem_eq

text \<open>
  Claim C8. \<^verbatim>\<open>present\<close>, \<^verbatim>\<open>dismiss\<close>, \<^verbatim>\<open>dismissTop\<close> and \<^verbatim>\<open>dismissAll\<close> are functions of
  the current list with a result for every list (none of them has a branch that
  throws, so each is a plain function here). Each puts a new array into the atom
  and writes to no array that existed before, so the previous list is still what
  it was; the new list is the one the operation computes, and its entries are the
  entries of the previous list, unchanged and in their order, with those removed
  left out and, for \<^verbatim>\<open>present\<close>, the new entry after them.
\<close>

theorem store_operations_copy_on_write:
  assumes "atom_ref m < next_ref m"
    and "atom_value m = modalStack w"
    and "m' \<in> {present_mem sc props m, dismiss_mem i m, dismissTop_mem m, dismissAll_mem m}"
  shows "(\<forall>r<next_ref m. arrays m' r = arrays m r) \<and>
         arrays m' (atom_ref m) = modalStack w \<and>
         atom_ref m' = next_ref m \<and> atom_ref m' < next_ref m' \<and>
         atom_value (present_mem sc props m) = modalStack (snd (snd (present sc props w))) \<and>
         atom_value (dismiss_mem i m) = modalStack (dismiss i w) \<and>
         atom_value (dismissTop_mem m) = modalStack (dismissTop w) \<and>
         atom_value (dismissAll_mem m) = modalStack (dismissAll w) \<and>
         prefix (modalStack w) (modalStack (snd (snd (present sc props w)))) \<and>
         subseq (modalStack (dismiss i w)) (modalStack w) \<and>
         subseq (modalStack (dismissTop w)) (modalStack w) \<and>
         subseq (modalStack (dismissAll w)) (modalStack w)"
proof -
  have frame: "(\<forall>r<next_ref m. arrays m' r = arrays m r) \<and> atom_ref m' = next_ref m \<and>
      atom_ref m' < next_ref m'"
    using assms(3) by (auto simp: mem_eqs)
  with assms(1,2) have old: "arrays m' (atom_ref m) = modalStack w"
    by (simp add: atom_value_def)
  have vals: "atom_value (present_mem sc props m) = modalStack (snd (snd (present sc props w)))"
    "atom_value (dismiss_mem i m) = modalStack (dismiss i w)"
    "atom_value (dismissTop_mem m) = modalStack (dismissTop w)"
    "atom_value (dismissAll_mem m) = modalStack (dismissAll w)"
    using assms(2)
    by (simp_all add: mem_eqs atom_value_def present_def Let_def dismiss_def dismissTop_def
        dismissAll_def js_slice_butlast)
  have kept: "prefix (modalStack w) (modalStack (snd (snd (present sc props w))))"
    "subseq (modalStack (dismiss i w)) (modalStack w)"
    "subseq (modalStack (dismissTop w)) (modalStack w)"
    "subseq (modalStack (dismissAll w)) (modalStack w)"
    by (simp_all add: present_def Let_def dismiss_def dismissTop_def dismissAll_def
        js_slice_butlast subseq_butlast)
  from frame old vals kept show ?thesis by simp
qed

theorem store_operations_copy_on_write_witness:
  "atom_ref (mem_of [entry ''A'' ''a'', entry ''B'' ''b''])
     < next_ref (mem_of [entry ''A'' ''a'', entry ''B'' ''b'']) \<and>
   atom_value (mem_of [entry ''A'' ''a'', entry ''B'' ''b''])
     = modalStack (world_of [entry ''A'' ''a'', entry ''B'' ''b'']) \<and>
   arrays (dismiss_mem ''a'' (mem_of [entry ''A'' ''a'', entry ''B'' ''b''])) 0
     = [entry ''A'' ''a'', entry ''B'' ''b''] \<and>
   atom_value (dismiss_mem ''a'' (mem_of [entry ''A'' ''a'', entry ''B'' ''b'']))
     = [entry ''B'' ''b'']"
  using store_operations_copy_on_write
    [of "mem_of [entry ''A'' ''a'', entry ''B'' ''b'']"
        "world_of [entry ''A'' ''a'', entry ''B'' ''b'']"
        "dismiss_mem ''a'' (mem_of [entry ''A'' ''a'', entry ''B'' ''b''])"
        "\<lparr>scope_id = '':r0:'', currentCount = 0\<rparr>" "descriptor ''C''" "''a''"]
  by (simp add: mem_of_def atom_value_def world_defs dismiss_def dismiss_mem_eq)

subsection \<open>The backdrop click\<close>

text \<open>
  Claim C9, as stated, fails for a descriptor with its own chrome
  (\<^verbatim>\<open>CustomModalComponent\<close>): with \<^verbatim>\<open>clickOutsideToDismiss\<close> false its container has no
  click handler, and a backdrop click starts no animation.
\<close>

theorem backdrop_click_custom_chrome_counterexample:
  "clickOutsideToDismiss ((entry ''A'' ''a'')
      \<lparr>CustomModalComponent := Some ''Chrome'', clickOutsideToDismiss := Some False\<rparr>) = Some False \<and>
   animations (backdrop_click
     ((entry ''A'' ''a'')\<lparr>CustomModalComponent := Some ''Chrome'', clickOutsideToDismiss := Some False\<rparr>)
     0 False 0 False \<lparr>propagationStopped = False\<rparr>
     (world_of [(entry ''A'' ''a'')
        \<lparr>CustomModalComponent := Some ''Chrome'', clickOutsideToDismiss := Some False\<rparr>])) = []"
  by (simp add: world_defs backdrop_click_def backdrop_onClick_def Modal_def truthy_def)

text \<open>
  Claim C9, amended. For a descriptor with \<^verbatim>\<open>clickOutsideToDismiss\<close> false or unset
  that is rendered as a dialog with the default chrome (not on mobile, no
  \<^verbatim>\<open>CustomModalComponent\<close>), a backdrop click leaves the stack as it is, calls no
  \<^verbatim>\<open>onClose\<close>, and starts the pulse once: one animation to scale 1.05 with duration
  0.06, followed by one animation back to scale 1 when the element is still
  mounted at the end of the first, and by nothing when it is unmounted by then.
\<close>

theorem backdrop_click_notices:
  assumes "\<not> truthy (clickOutsideToDismiss item)" and "CustomModalComponent item = None"
  shows "modalStack (backdrop_click item index False drawerLength isUnmounted e w) = modalStack w \<and>
         calls (backdrop_click item index False drawerLength isUnmounted e w) = calls w \<and>
         animations (backdrop_click item index False drawerLength isUnmounted e w) =
           animations w @
             \<lparr>scale = Some (105 / 100), opacity = None, duration = Some (6 / 100)\<rparr> #
             (if isUnmounted then [] else [\<lparr>scale = Some 1, opacity = None, duration = None\<rparr>])"
  using assms
  by (simp add: backdrop_click_def backdrop_onClick_def Modal_def noticeModal_start_def
      noticeModal_then_def)

theorem backdrop_click_notices_witness:
  "\<not> truthy (clickOutsideToDismiss ((entry ''A'' ''a'')\<lparr>clickOutsideToDismiss := Some False\<rparr>)) \<and>
   CustomModalComponent ((entry ''A'' ''a'')\<lparr>clickOutsideToDismiss := Some False\<rparr>) = None \<and>
   modalStack (backdrop_click ((entry ''A'' ''a'')\<lparr>clickOutsideToDismiss := Some False\<rparr>) 0 False 0 False
      \<lparr>propagationStopped = False\<rparr> (world_of [(entry ''A'' ''a'')\<lparr>clickOutsideToDismiss := Some False\<rparr>]))
     = [(entry ''A'' ''a'')\<lparr>clickOutsideToDismiss := Some False\<rparr>] \<and>
   animations (backdrop_click ((entry ''A'' ''a'')\<lparr>clickOutsideToDismiss := Some False\<rparr>) 0 False 0 False
      \<lparr>propagationStopped = False\<rparr> (world_of [(entry ''A'' ''a'')\<lparr>clickOutsideToDismiss := Some False\<rparr>]))
     = [\<lparr>scale = Some (105 / 100), opacity = None, duration = Some (6 / 100)\<rparr>,
        \<lparr>scale = Some 1, opacity = None, duration = None\<rparr>] \<and>
   animations (backdrop_click ((entry ''A'' ''a'')\<lparr>clickOutsideToDismiss := Some False\<rparr>) 0 False 0 True
      \<lparr>propagationStopped = False\<rparr> (world_of [(entry ''A'' ''a'')\<lparr>clickOutsideToDismiss := Some False\<rparr>]))
     = [\<lparr>scale = Some (105 / 100), opacity = None, duration = Some (6 / 100)\<rparr>]"
  using backdrop_click_notices [of "(entry ''A'' ''a'')\<lparr>clickOutsideToDismiss := Some False\<rparr>" 0 0 False
      "\<lparr>propagationStopped = False\<rparr>" "world_of [(entry ''A'' ''a'')\<lparr>clickOutsideToDismiss := Some False\<rparr>]"]
    backdrop_click_notices [of "(entry ''A'' ''a'')\<lparr>clickOutsideToDismiss := Some False\<rparr>" 0 0 True
      "\<lparr>propagationStopped = False\<rparr>" "world_of [(entry ''A'' ''a'')\<lparr>clickOutsideToDismiss := Some False\<rparr>]"]
  by (simp add: world_defs truthy_def)

subsection \<open>The renderer\<close>

text \<open>
  Claim C10, as stated, fails for descriptors with their own chrome: on desktop
  they are rendered without the style \<^verbatim>\<open>zIndex: 99 + index\<close>.
\<close>

theorem custom_chrome_zIndex_counterexample:
  "map (\<lambda>(key, r). element_zIndex r)
     (the (DrawerStack True False 0
        (world_of [(entry ''A'' ''a'')\<lparr>CustomModalComponent := Some ''Chrome''\<rparr>,
                   (entry ''B'' ''b'')\<lparr>CustomModalComponent := Some ''Chrome''\<rparr>])))
   = [None, None]"
  by (simp add: world_defs DrawerStack_def Modal_def element_zIndex_def enumerate_eq_zip)

text \<open>
  Claim C10, amended. Once the client has rendered, the renderer gives one
  presentation element per descriptor, in the order of the list and keyed by the
  id. On desktop an element with the default chrome has the z-index 99 + index,
  which grows strictly with the index (an element with a custom chrome has no such
  z-index); on mobile every sheet has the z-index 1000 plus the number of sheets of
  the external sheet stack.
\<close>

theorem DrawerStack_renders_in_order:
  assumes "DrawerStack True isMobile n w = Some rs"
  shows "length rs = length (modalStack w) \<and>
         map fst rs = map id' (modalStack w) \<and>
         (\<forall>i<length rs.
            snd (rs ! i) = Modal (modalStack w ! i) i isMobile n \<and>
            (isMobile \<longrightarrow> element_zIndex (snd (rs ! i)) = Some (1000 + n)) \<and>
            (\<not> isMobile \<and> CustomModalComponent (modalStack w ! i) = None \<longrightarrow>
               element_zIndex (snd (rs ! i)) = Some (99 + i))) \<and>
         (\<forall>i j. i < j \<and> j < length rs \<and> \<not> isMobile \<and>
            CustomModalComponent (modalStack w ! i) = None \<and>
            CustomModalComponent (modalStack w ! j) = None \<longrightarrow>
            (\<exists>zi zj. element_zIndex (snd (rs ! i)) = Some zi \<and>
               element_zIndex (snd (rs ! j)) = Some zj \<and> zi < zj))"
proof -
  from assms have rs: "rs = map (\<lambda>(index, item). (id' item, Modal item index isMobile n))
      (enumerate 0 (modalStack w))"
    by (simp add: DrawerStack_def)
  have len: "length rs = length (modalStack w)" by (simp add: rs)
  have keys: "map fst rs = map id' (modalStack w)"
    by (auto simp: rs list_eq_iff_nth_eq nth_enumerate_eq)
  have elems: "snd (rs ! i) = Modal (modalStack w ! i) i isMobile n" if "i < length rs" for i
    using that by (simp add: rs nth_enumerate_eq)
  have z: "element_zIndex (snd (rs ! i)) = Some (99 + i)"
    if "i < length rs" "\<not> isMobile" "CustomModalComponent (modalStack w ! i) = None" for i
    using that by (simp add: elems Modal_def element_zIndex_def)
  have mobile: "element_zIndex (snd (rs ! i)) = Some (1000 + n)" if "i < length rs" isMobile for i
    using that by (simp add: elems Modal_def element_zIndex_def)
  have incr: "\<exists>zi zj. element_zIndex (snd (rs ! i)) = Some zi \<and>
      element_zIndex (snd (rs ! j)) = Some zj \<and> zi < zj"
    if "i < j" "j < length rs" "\<not> isMobile" "CustomModalComponent (modalStack w ! i) = None"
      "CustomModalComponent (modalStack w ! j) = None" for i j
    using that z [of i] z [of j] by simp
  show ?thesis
    using len keys elems z mobile incr by blast
qed

theorem DrawerStack_renders_in_order_witness:
  "DrawerStack True False 0 (world_of [entry ''A'' ''a'', entry ''B'' ''b'']) =
     Some [(''a'', Modal (entry ''A'' ''a'') 0 False 0), (''b'', Modal (entry ''B'' ''b'') 1 False 0)] \<and>
   map fst [(''a'', Modal (entry ''A'' ''a'') 0 False 0), (''b'', Modal (entry ''B'' ''b'') 1 False 0)]
     = map id' (modalStack (world_of [entry ''A'' ''a'', entry ''B'' ''b''])) \<and>
   element_zIndex (Modal (entry ''A'' ''a'') 0 False 0) = Some 99 \<and>
   element_zIndex (Modal (entry ''B'' ''b'') 1 False 0) = Some 100"
proof -
  have h: "DrawerStack True False 0 (world_of [entry ''A'' ''a'', entry ''B'' ''b'']) =
     Some [(''a'', Modal (entry ''A'' ''a'') 0 False 0), (''b'', Modal (entry ''B'' ''b'') 1 False 0)]"
    by (simp add: DrawerStack_def world_defs)
  show ?thesis
    using DrawerStack_renders_in_order [OF h] h
    by (simp add: Modal_def element_zIndex_def world_defs)
qed

end
